theory Spec2Isabelle
  imports Main
begin

section \<open>JSON values and their JavaScript renderings\<close>

text \<open>
  The documents of the backing store and the values the handlers serialise. Numbers are
  restricted to integers (those a double represents): the handlers only ever write arrays
  of strings, and the other shapes are present so that "the document is an array" is a
  property that can fail.
\<close>

datatype json =
    JNull
  | JBool bool
  | JNum int
  | JStr string
  | JArr "json list"
  | JObj "(string \<times> json) list"

definition digit :: "nat \<Rightarrow> char" where
  "digit d = ''0123456789abcdef'' ! d"

fun show_nat :: "nat \<Rightarrow> string" where
  "show_nat n = (if n < 10 then [digit n] else show_nat (n div 10) @ [digit (n mod 10)])"

declare show_nat.simps [simp del]

text \<open>
  \<open>${index}\<close> in a template literal, for an integer-valued number: \<open>Number::toString\<close>
  in radix 10. A JavaScript number is a double, and the digits printed are the shortest
  decimal digit string \<open>s\<close> with a power of ten \<open>q\<close> such that \<open>s * 10^q\<close> reads back as
  the same double (below \<open>2^53\<close> these are all the digits of the integer). Up to 21
  integer digits the result is \<open>s\<close> followed by \<open>q\<close> zeros, beyond that it is in exponent
  notation, as in \<open>1e+21\<close>.

  \<open>bits v\<close> is the length of \<open>v\<close> in binary.
\<close>

fun bits :: "nat \<Rightarrow> nat" where
  "bits n = (if n = 0 then 0 else Suc (bits (n div 2)))"

declare bits.simps [simp del]

text \<open>
  The integer \<open>c\<close> reads back as the double \<open>v\<close>: it lies between the midpoints to the two
  neighbouring doubles, the midpoints included when the mantissa of \<open>v\<close> is even. The
  doubles next to \<open>v \<ge> 2^53\<close> are \<open>u = 2^(bits v - 53)\<close> away, the one below a power of two
  half as far.
\<close>

definition rounds_to :: "nat \<Rightarrow> nat \<Rightarrow> bool" where
  "rounds_to v c =
     (if bits v \<le> 53 then c = v
      else
        (let u = 2 ^ (bits v - 53); m = v div u; hi = u div 2;
             lo = (if m = 2 ^ 52 then u div 4 else u div 2)
         in if even m then v - lo \<le> c \<and> c \<le> v + hi else v - lo < c \<and> c < v + hi))"

text \<open>
  The digits \<open>s\<close> and the power of ten \<open>q\<close>: the largest \<open>q\<close>, from the given one down,
  for which a multiple of \<open>10^q\<close> reads back as \<open>v\<close>; of the two multiples next to \<open>v\<close>
  the closer one, the even one when they are as close.
\<close>

fun shortest :: "nat \<Rightarrow> nat \<Rightarrow> nat \<times> nat" where
  "shortest v 0 = (v, 0)"
| "shortest v (Suc q) =
     (let p = 10 ^ Suc q; c1 = (v div p) * p; c2 = c1 + p in
      if rounds_to v c1 \<and> rounds_to v c2
      then (if v - c1 < c2 - v then (c1 div p, Suc q)
            else if c2 - v < v - c1 then (c2 div p, Suc q)
            else if even (c1 div p) then (c1 div p, Suc q)
            else (c2 div p, Suc q))
      else if rounds_to v c1 then (c1 div p, Suc q)
      else if rounds_to v c2 then (c2 div p, Suc q)
      else shortest v q)"

definition number_toString :: "nat \<Rightarrow> string" where
  "number_toString v =
     (if v = 0 then ''0''
      else
        (case shortest v (length (show_nat v)) of
           (s, q) \<Rightarrow>
             (let ds = show_nat s; k = length ds; n = k + q in
              if n \<le> 21 then ds @ replicate q (CHR ''0'')
              else
                (case ds of
                   [] \<Rightarrow> []
                 | [d] \<Rightarrow> d # ''e+'' @ show_nat (n - 1)
                 | d # rest \<Rightarrow> d # CHR ''.'' # rest @ ''e+'' @ show_nat (n - 1)))))"

definition show_int :: "int \<Rightarrow> string" where
  "show_int i =
     (if i < 0 then CHR ''-'' # number_toString (nat (- i)) else number_toString (nat i))"

fun join_comma :: "string list \<Rightarrow> string" where
  "join_comma [] = []"
| "join_comma [x] = x"
| "join_comma (x # y # ys) = x @ '','' @ join_comma (y # ys)"

text \<open>
  \<open>${v}\<close> in a template literal for a JSON value \<open>v\<close>: a string is itself, an array is
  its elements joined by commas (\<open>null\<close> elements as the empty string), an object is
  \<open>[object Object]\<close>.
\<close>

fun js_string :: "json \<Rightarrow> string" where
  "js_string JNull = ''null''"
| "js_string (JBool b) = (if b then ''true'' else ''false'')"
| "js_string (JNum n) = show_int n"
| "js_string (JStr s) = s"
| "js_string (JArr xs) = join_comma (map (\<lambda>x. if x = JNull then [] else js_string x) xs)"
| "js_string (JObj kvs) = ''[object Object]''"

definition hex4 :: "nat \<Rightarrow> string" where
  "hex4 n = [digit (n div 4096 mod 16), digit (n div 256 mod 16),
             digit (n div 16 mod 16), digit (n mod 16)]"

text \<open>
  The escapes of \<open>JSON.stringify\<close> inside a string: the double quote (0x22), the backslash
  (0x5C), the five short escapes, and \<open>\u00XX\<close> for the other control characters.
\<close>

definition escape_char :: "char \<Rightarrow> string" where
  "escape_char c =
     (if c = CHR 0x22 then [CHR 0x5C, CHR 0x22]
      else if c = CHR 0x5C then [CHR 0x5C, CHR 0x5C]
      else if c = CHR 0x08 then [CHR 0x5C, CHR ''b'']
      else if c = CHR 0x0C then [CHR 0x5C, CHR ''f'']
      else if c = CHR 0x0A then [CHR 0x5C, CHR ''n'']
      else if c = CHR 0x0D then [CHR 0x5C, CHR ''r'']
      else if c = CHR 0x09 then [CHR 0x5C, CHR ''t'']
      else if (of_char c :: nat) < 32 then [CHR 0x5C, CHR ''u''] @ hex4 (of_char c)
      else [c])"

definition quote :: "string \<Rightarrow> string" where
  "quote s = CHR 0x22 # concat (map escape_char s) @ [CHR 0x22]"

fun JSON_stringify :: "json \<Rightarrow> string" where
  "JSON_stringify JNull = ''null''"
| "JSON_stringify (JBool b) = (if b then ''true'' else ''false'')"
| "JSON_stringify (JNum n) = show_int n"
| "JSON_stringify (JStr s) = quote s"
| "JSON_stringify (JArr xs) = ''['' @ join_comma (map JSON_stringify xs) @ '']''"
| "JSON_stringify (JObj kvs) =
     ''{'' @ join_comma (map (\<lambda>kv. quote (fst kv) @ '':'' @ JSON_stringify (snd kv)) kvs) @ ''}''"

section \<open>The backing document store\<close>

text \<open>
  The store is a remote service reached through the \<open>@upstash/redis\<close> client; its code is
  not part of the repository. The handlers only use the root path \<open>$\<close>, so a primitive
  takes the key and no path.
\<close>

text \<open>One primitive call, as the client issues it.\<close>

datatype call =
    Exists string
  | JsonSet string json
  | JsonArrAppend string json
  | JsonArrPop string int
  | JsonGet string

text \<open>
  The state of the world the handlers act on:
  \<^item> \<open>docs\<close>: the document stored at each key;
  \<^item> \<open>negidx\<close>: how the store resolves a negative index of an array of a given length to a
    position (the store's configuration; no primitive changes it);
  \<^item> \<open>faults\<close>: what the transport does to the coming primitive calls, one entry per call:
    \<open>Some msg\<close> makes the call throw an \<open>Error\<close> with message \<open>msg\<close>, \<open>None\<close> lets it
    through; when the list is used up, calls go through;
  \<^item> \<open>calls\<close>: the log of the primitive calls issued so far, oldest first.
\<close>

record store =
  docs :: "string \<rightharpoonup> json"
  negidx :: "int \<Rightarrow> nat \<Rightarrow> nat option"
  faults :: "string option list"
  calls :: "call list"

text \<open>
  Modelled from the spec: any primitive may fail (network, serialisation, server-side
  fault; section 7), and the client then throws. Issuing a call logs it and takes the next
  entry of \<open>faults\<close>.
\<close>

definition transport :: "call \<Rightarrow> store \<Rightarrow> string option \<times> store" where
  "transport c s =
     (case faults s of
        [] \<Rightarrow> (None, s\<lparr>calls := calls s @ [c]\<rparr>)
      | f # fs \<Rightarrow> (f, s\<lparr>faults := fs, calls := calls s @ [c]\<rparr>))"

text \<open>
  Modelled from the spec: the five primitives of the backing document store (section 4.3),
  whose implementation is outside the repository. A result \<open>Inl msg\<close> is a thrown
  \<open>Error\<close> with that message; a failed call leaves the documents as they were.

  \<open>exists(key) -> bool\<close>.
\<close>

definition redis_exists :: "string \<Rightarrow> store \<Rightarrow> (string + bool) \<times> store" where
  "redis_exists key s =
     (case transport (Exists key) s of
        (Some msg, s') \<Rightarrow> (Inl msg, s')
      | (None, s') \<Rightarrow> (Inr (docs s' key \<noteq> None), s'))"

text \<open>
  Modelled from the spec: \<open>setDocument(key, path, value)\<close>, a whole-value set that creates
  the key if absent.
\<close>

definition redis_json_set :: "string \<Rightarrow> json \<Rightarrow> store \<Rightarrow> (string + unit) \<times> store" where
  "redis_json_set key v s =
     (case transport (JsonSet key v) s of
        (Some msg, s') \<Rightarrow> (Inl msg, s')
      | (None, s') \<Rightarrow> (Inr (), s'\<lparr>docs := (docs s')(key \<mapsto> v)\<rparr>))"

text \<open>
  Modelled from the spec: \<open>appendToArray(key, path, value)\<close> appends atomically to an
  existing array. The spec gives no result for a key that is absent or holds no array; the
  model makes that a store error and changes nothing.
\<close>

definition redis_json_arrappend :: "string \<Rightarrow> json \<Rightarrow> store \<Rightarrow> (string + unit) \<times> store" where
  "redis_json_arrappend key v s =
     (case transport (JsonArrAppend key v) s of
        (Some msg, s') \<Rightarrow> (Inl msg, s')
      | (None, s') \<Rightarrow>
          (case docs s' key of
             Some (JArr xs) \<Rightarrow> (Inr (), s'\<lparr>docs := (docs s')(key \<mapsto> JArr (xs @ [v]))\<rparr>)
           | _ \<Rightarrow> (Inl ''no array at path'', s')))"

text \<open>
  Modelled from the spec: the position an index selects in an array of length \<open>n\<close>. The
  spec fixes the 0-based indices: \<open>i\<close> with \<open>0 \<le> i < n\<close> is position \<open>i\<close>, and \<open>i \<ge> n\<close> is out of range. It says
  nothing of a negative index, which is left to the store's \<open>negidx\<close>.
\<close>

definition arrpop_position :: "(int \<Rightarrow> nat \<Rightarrow> nat option) \<Rightarrow> int \<Rightarrow> nat \<Rightarrow> nat option" where
  "arrpop_position neg i n =
     (if 0 \<le> i then (if i < int n then Some (nat i) else None)
      else (case neg i n of
              Some p \<Rightarrow> if p < n then Some p else None
            | None \<Rightarrow> None))"

text \<open>
  Two conventions a store may have for a negative index: always out of range, or counted
  from the end of the array (\<open>- 1\<close> is the last element).
\<close>

definition strict_index :: "int \<Rightarrow> nat \<Rightarrow> nat option" where
  "strict_index i n = None"

definition from_end :: "int \<Rightarrow> nat \<Rightarrow> nat option" where
  "from_end i n = (if 0 \<le> int n + i then Some (nat (int n + i)) else None)"

definition remove_at :: "nat \<Rightarrow> 'a list \<Rightarrow> 'a list" where
  "remove_at p xs = take p xs @ drop (Suc p) xs"

text \<open>
  Modelled from the spec: \<open>removeFromArray(key, path, index) -> JSON | null\<close> atomically
  removes and returns the element at \<open>index\<close>, or null if out of range or the key is
  absent (and, in the model, if the document is no array). The handler reads the removed
  element as \<open>result[0]\<close>: a non-null result is the array of matches of the root path,
  which has exactly one entry, and \<open>Some v\<close> stands for that array \<open>[v]\<close>.
\<close>

definition redis_json_arrpop :: "string \<Rightarrow> int \<Rightarrow> store \<Rightarrow> (string + json option) \<times> store" where
  "redis_json_arrpop key index s =
     (case transport (JsonArrPop key index) s of
        (Some msg, s') \<Rightarrow> (Inl msg, s')
      | (None, s') \<Rightarrow>
          (case docs s' key of
             Some (JArr xs) \<Rightarrow>
               (case arrpop_position (negidx s') index (length xs) of
                  Some p \<Rightarrow>
                    (Inr (Some (xs ! p)),
                     s'\<lparr>docs := (docs s')(key \<mapsto> JArr (remove_at p xs))\<rparr>)
                | None \<Rightarrow> (Inr None, s'))
           | _ \<Rightarrow> (Inr None, s')))"

text \<open>
  Modelled from the spec: \<open>getDocument(key, path) -> JSON | null\<close>. The store wraps a
  root-level read in an array of matches with the document as its sole entry: \<open>Some d\<close>
  stands for that array \<open>[d]\<close>, \<open>None\<close> for null (the key is absent).
\<close>

definition redis_json_get :: "string \<Rightarrow> store \<Rightarrow> (string + json option) \<times> store" where
  "redis_json_get key s =
     (case transport (JsonGet key) s of
        (Some msg, s') \<Rightarrow> (Inl msg, s')
      | (None, s') \<Rightarrow> (Inr (docs s' key), s'))"

section \<open>The request handlers\<close>

text \<open>\<open>getMemoryKey\<close> (server.ts, line 15).\<close>

definition getMemoryKey :: "string \<Rightarrow> string" where
  "getMemoryKey userEmail = ''memory:'' @ userEmail"

text \<open>
  The request metadata: \<open>requestInfo\<close> may be undefined, and so may its \<open>headers\<close>. A header
  value is taken to be a string.
\<close>

datatype request_info = RequestInfo (headers: "(string \<rightharpoonup> string) option")

text \<open>\<open>getUser\<close> (server.ts, line 19); \<open>None\<close> is \<open>undefined\<close>.\<close>

definition getUser :: "request_info option \<Rightarrow> string option" where
  "getUser request =
     (case request of
        Some (RequestInfo (Some hs)) \<Rightarrow> hs ''x-user-email''
      | _ \<Rightarrow> None)"

text \<open>
  An error thrown by the JavaScript runtime, outside any \<open>try\<close>.
\<close>

datatype js_error = TypeError

text \<open>
  \<open>getUser\<close> of the earlier variant of the server (part_000, line 12), which reads
  \<open>request.headers.get("x-user-email")\<close> with no check of \<open>request\<close>: on an undefined
  \<open>request\<close> (\<open>None\<close>) the property access throws a \<open>TypeError\<close>. \<open>Inr None\<close> is \<open>null\<close>,
  the header is not there.
\<close>

definition getUser0 :: "(string \<rightharpoonup> string) option \<Rightarrow> js_error + string option" where
  "getUser0 request =
     (case request of
        None \<Rightarrow> Inl TypeError
      | Some request_headers \<Rightarrow> Inr (request_headers ''x-user-email''))"

text \<open>\<open>!user\<close>: true of \<open>undefined\<close>, \<open>null\<close> and the empty string.\<close>

definition not_user :: "string option \<Rightarrow> bool" where
  "not_user user = (case user of None \<Rightarrow> True | Some u \<Rightarrow> u = [])"

text \<open>The response objects: \<open>{content: [{type, text}]}\<close> and \<open>{contents: [{uri, mimeType, text}]}\<close>.\<close>

datatype content_item = TextContent (ctype: string) (ctext: string)

datatype tool_result = ToolResult (content: "content_item list")

datatype resource_item = ResourceItem (uri: string) (mimeType: string) (rtext: string)

datatype resource_result = ResourceResult (contents: "resource_item list")

definition text_result :: "string \<Rightarrow> tool_result" where
  "text_result t = ToolResult [TextContent ''text'' t]"

definition guest_result :: tool_result where
  "guest_result = text_result ''Memory feature is not available for guest users.''"

subsection \<open>memory.remember\<close>

text \<open>
  The handler from the point where \<open>await redis.exists(key)\<close> settles (server.ts, lines
  57 to 84): \<open>r\<close> is the outcome of that call, \<open>timestamp\<close> the reading
  \<open>new Date().toISOString()\<close> takes after the write.
\<close>

definition remember_resume ::
  "string \<Rightarrow> string \<Rightarrow> string \<Rightarrow> string + bool \<Rightarrow> store \<Rightarrow> tool_result \<times> store" where
  "remember_resume key record timestamp r s =
     (case r of
        Inl msg \<Rightarrow> (text_result (''Error storing memory item: '' @ msg), s)
      | Inr exists \<Rightarrow>
          (case (if exists then redis_json_arrappend key (JStr record) s
                 else redis_json_set key (JArr [JStr record]) s) of
             (Inl msg, s') \<Rightarrow> (text_result (''Error storing memory item: '' @ msg), s')
           | (Inr _, s') \<Rightarrow>
               (text_result (''Stored memory about: '' @ record @ '' on '' @ timestamp @ '' UTC''),
                s')))"

text \<open>The handler body after \<open>const user = getUser(...)\<close> (server.ts, lines 44 to 84).\<close>

definition remember_as :: "string option \<Rightarrow> string \<Rightarrow> string \<Rightarrow> store \<Rightarrow> tool_result \<times> store" where
  "remember_as user record timestamp s =
     (if not_user user then (guest_result, s)
      else
        (case user of
           None \<Rightarrow> (guest_result, s)
         | Some u \<Rightarrow>
             (let key = getMemoryKey u in
              case redis_exists key s of
                (r, s') \<Rightarrow> remember_resume key record timestamp r s')))"

text \<open>The handler of server.ts (line 41).\<close>

definition remember :: "request_info option \<Rightarrow> string \<Rightarrow> string \<Rightarrow> store \<Rightarrow> tool_result \<times> store" where
  "remember requestInfo record timestamp s = remember_as (getUser requestInfo) record timestamp s"

text \<open>
  The handler of part_000 (line 29). \<open>request\<close> is what the framework passes under that
  name in the second argument of the callback, if anything; \<open>getUser\<close> is called before
  the \<open>try\<close>, so its \<open>TypeError\<close> is the outcome of the call.
\<close>

definition remember0 ::
  "(string \<rightharpoonup> string) option \<Rightarrow> string \<Rightarrow> string \<Rightarrow> store
     \<Rightarrow> (js_error + tool_result) \<times> store" where
  "remember0 request record timestamp s =
     (case getUser0 request of
        Inl e \<Rightarrow> (Inl e, s)
      | Inr user \<Rightarrow>
          (case remember_as user record timestamp s of (response, s') \<Rightarrow> (Inr response, s')))"

subsection \<open>memory.forget\<close>

text \<open>The handler body after \<open>const user = getUser(...)\<close> (server.ts, lines 100 to 145).\<close>

definition forget_as :: "string option \<Rightarrow> int \<Rightarrow> store \<Rightarrow> tool_result \<times> store" where
  "forget_as user index s =
     (if not_user user then (guest_result, s)
      else
        (case user of
           None \<Rightarrow> (guest_result, s)
         | Some u \<Rightarrow>
             (let key = getMemoryKey u in
              case redis_json_arrpop key index s of
                (Inl msg, s') \<Rightarrow>
                  (text_result (''Error removing memory item '' @ show_int index @ '': '' @ msg), s')
              | (Inr None, s') \<Rightarrow>
                  (text_result (''No memory item found at index '' @ show_int index @ ''.''), s')
              | (Inr (Some v), s') \<Rightarrow>
                  (text_result (''Removed memory item at index '' @ show_int index
                                @ '' about: '' @ js_string v), s'))))"

text \<open>The handler of server.ts (line 97).\<close>

definition forget :: "request_info option \<Rightarrow> int \<Rightarrow> store \<Rightarrow> tool_result \<times> store" where
  "forget requestInfo index s = forget_as (getUser requestInfo) index s"

text \<open>The handler of part_000 (line 86), with \<open>request\<close> as in \<open>remember0\<close>.\<close>

definition forget0 ::
  "(string \<rightharpoonup> string) option \<Rightarrow> int \<Rightarrow> store \<Rightarrow> (js_error + tool_result) \<times> store" where
  "forget0 request index s =
     (case getUser0 request of
        Inl e \<Rightarrow> (Inl e, s)
      | Inr user \<Rightarrow> (case forget_as user index s of (response, s') \<Rightarrow> (Inr response, s')))"

subsection \<open>memory.recall\<close>

text \<open>\<open>const memoryData = memory ? memory[0] : []\<close> (server.ts, line 176).\<close>

definition memoryData :: "json option \<Rightarrow> json" where
  "memoryData memory = (case memory of None \<Rightarrow> JArr [] | Some d \<Rightarrow> d)"

definition json_resource :: "string \<Rightarrow> json \<Rightarrow> resource_result" where
  "json_resource u v = ResourceResult [ResourceItem u ''application/json'' (JSON_stringify v)]"

text \<open>
  The handler body after \<open>const user = getUser(...)\<close> (server.ts, lines 160 to 198).
  \<open>href\<close> is the URI the guest and the success responses carry: \<open>uri.href\<close> in server.ts,
  the constant \<open>resource://memory.recall\<close> in part_000. The error response carries the
  constant in both.
\<close>

definition recall_as :: "string \<Rightarrow> string option \<Rightarrow> store \<Rightarrow> resource_result \<times> store" where
  "recall_as href user s =
     (if not_user user
      then (json_resource href (JObj [(''error'', JStr ''User not found'')]), s)
      else
        (case user of
           None \<Rightarrow> (json_resource href (JObj [(''error'', JStr ''User not found'')]), s)
         | Some u \<Rightarrow>
             (let key = getMemoryKey u in
              case redis_json_get key s of
                (Inl msg, s') \<Rightarrow>
                  (json_resource ''resource://memory.recall'' (JObj [(''error'', JStr msg)]), s')
              | (Inr memory, s') \<Rightarrow> (json_resource href (memoryData memory), s'))))"

text \<open>The handler of server.ts (line 157).\<close>

definition recall :: "string \<Rightarrow> request_info option \<Rightarrow> store \<Rightarrow> resource_result \<times> store" where
  "recall href requestInfo s = recall_as href (getUser requestInfo) s"

text \<open>
  The handler of part_000 (line 145). Its callback takes \<open>request\<close> out of its first
  argument, which for a resource is the URI read and has no such property: \<open>request\<close> is
  undefined whatever the caller sends, and the handler stops at \<open>getUser\<close>, before its
  \<open>try\<close>.
\<close>

definition recall0 :: "store \<Rightarrow> (js_error + resource_result) \<times> store" where
  "recall0 s =
     (case getUser0 None of
        Inl e \<Rightarrow> (Inl e, s)
      | Inr user \<Rightarrow>
          (case recall_as ''resource://memory.recall'' user s of
             (response, s') \<Rightarrow> (Inr response, s')))"

section \<open>Runs of the handlers\<close>

text \<open>No coming primitive call is hit by a transport failure.\<close>

definition no_faults :: "store \<Rightarrow> bool" where
  "no_faults s = list_all (\<lambda>f. f = None) (faults s)"

text \<open>
  The same caller storing a sequence of records, one \<open>memory.remember\<close> call after the
  other; each record comes with the timestamp its call reads.
\<close>

fun remember_all :: "request_info option \<Rightarrow> (string \<times> string) list \<Rightarrow> store \<Rightarrow> store" where
  "remember_all requestInfo [] s = s"
| "remember_all requestInfo ((record, timestamp) # rest) s =
     remember_all requestInfo rest (snd (remember requestInfo record timestamp s))"


text \<open>
  The states the handlers can bring the store to, from a store with no document at all.
  Between two steps the transport may fail in any way (\<open>trouble\<close>). A step is a whole call
  of a handler, by any caller, or one of the two halves of \<open>memory.remember\<close> on its own:
  the existence check, and the resumption with an answer \<open>r\<close> that may be out of date by
  then, as it is when calls run concurrently.
\<close>

inductive reachable :: "store \<Rightarrow> bool" where
  fresh: "docs s = Map.empty \<Longrightarrow> reachable s"
| trouble: "reachable s \<Longrightarrow> reachable (s\<lparr>faults := fs\<rparr>)"
| remember: "reachable s \<Longrightarrow> reachable (snd (remember_as user record timestamp s))"
| check: "reachable s \<Longrightarrow> reachable (snd (redis_exists (getMemoryKey u) s))"
| resume: "reachable s \<Longrightarrow> reachable (snd (remember_resume (getMemoryKey u) record timestamp r s))"
| forget: "reachable s \<Longrightarrow> reachable (snd (forget_as user index s))"
| recall: "reachable s \<Longrightarrow> reachable (snd (recall_as href user s))"

section \<open>Sample inputs\<close>

text \<open>
  A signed-in caller, a guest, and stores to run the handlers on: without documents, with
  a list of two items, with a JSON null as the caller's document (no handler writes one;
  another client of the store can), and with a list of one item.
\<close>

definition ann :: "request_info option" where
  "ann = Some (RequestInfo (Some [''x-user-email'' \<mapsto> ''ann'']))"

definition guest :: "request_info option" where
  "guest = Some (RequestInfo (Some Map.empty))"

definition fresh_store :: store where
  "fresh_store = \<lparr>docs = Map.empty, negidx = strict_index, faults = [], calls = []\<rparr>"

definition tea_store :: store where
  "tea_store =
     \<lparr>docs = [''memory:ann'' \<mapsto> JArr [JStr ''likes tea'', JStr ''works at Acme'']],
      negidx = strict_index, faults = [], calls = []\<rparr>"


definition one_item_store :: store where
  "one_item_store = snd (remember ann ''likes tea'' ''t1'' fresh_store)"

section \<open>The state machine of the memory lists\<close>

text \<open>
  What one step of a handler may do to the documents: nothing, put a one-element list at
  a key, add a record at the tail of the list at a key, or remove one position from the
  list at a key.
\<close>

inductive doc_step :: "(string \<rightharpoonup> json) \<Rightarrow> (string \<rightharpoonup> json) \<Rightarrow> bool" where
  same: "doc_step d d"
| created: "doc_step d (d(k \<mapsto> JArr [JStr r]))"
| appended: "d k = Some (JArr xs) \<Longrightarrow> doc_step d (d(k \<mapsto> JArr (xs @ [JStr r])))"
| removed: "d k = Some (JArr xs) \<Longrightarrow> p < length xs \<Longrightarrow> doc_step d (d(k \<mapsto> JArr (remove_at p xs)))"

section \<open>Facts about the store primitives\<close>

lemma transport_ok: "no_faults s \<Longrightarrow> fst (transport c s) = None"
  by (auto simp: transport_def no_faults_def split: list.splits)

lemma transport_docs [simp]: "docs (snd (transport c s)) = docs s"
  by (simp add: transport_def split: list.splits)

lemma transport_negidx [simp]: "negidx (snd (transport c s)) = negidx s"
  by (simp add: transport_def split: list.splits)

lemma transport_calls [simp]: "calls (snd (transport c s)) = calls s @ [c]"
  by (simp add: transport_def split: list.splits)

lemma transport_no_faults [simp]: "no_faults s \<Longrightarrow> no_faults (snd (transport c s))"
  by (auto simp: transport_def no_faults_def split: list.splits)

lemma no_faults_docs_update [simp]: "no_faults (s\<lparr>docs := d\<rparr>) = no_faults s"
  by (simp add: no_faults_def)

lemma transport_fault:
  "faults s = Some msg # fs \<Longrightarrow>
   transport c s = (Some msg, s\<lparr>faults := fs, calls := calls s @ [c]\<rparr>)"
  by (simp add: transport_def)

lemma transport_pass:
  "faults s = None # fs \<Longrightarrow>
   transport c s = (None, s\<lparr>faults := fs, calls := calls s @ [c]\<rparr>)"
  by (simp add: transport_def)

lemma redis_exists_ok:
  "no_faults s \<Longrightarrow>
   redis_exists key s = (Inr (docs s key \<noteq> None), snd (transport (Exists key) s))"
  using transport_ok [of s "Exists key"] transport_docs [of "Exists key" s]
  by (cases "transport (Exists key) s") (simp add: redis_exists_def)

lemma redis_json_set_ok:
  "no_faults s \<Longrightarrow>
   redis_json_set key v s =
     (Inr (), (snd (transport (JsonSet key v) s))\<lparr>docs := (docs s)(key \<mapsto> v)\<rparr>)"
  using transport_ok [of s "JsonSet key v"] transport_docs [of "JsonSet key v" s]
  by (cases "transport (JsonSet key v) s") (simp add: redis_json_set_def)

lemma redis_json_arrappend_ok:
  "no_faults s \<Longrightarrow> docs s key = Some (JArr xs) \<Longrightarrow>
   redis_json_arrappend key v s =
     (Inr (), (snd (transport (JsonArrAppend key v) s))
                \<lparr>docs := (docs s)(key \<mapsto> JArr (xs @ [v]))\<rparr>)"
  using transport_ok [of s "JsonArrAppend key v"] transport_docs [of "JsonArrAppend key v" s]
  by (cases "transport (JsonArrAppend key v) s") (simp add: redis_json_arrappend_def)

lemma redis_json_get_ok:
  "no_faults s \<Longrightarrow>
   redis_json_get key s = (Inr (docs s key), snd (transport (JsonGet key) s))"
  using transport_ok [of s "JsonGet key"] transport_docs [of "JsonGet key" s]
  by (cases "transport (JsonGet key) s") (simp add: redis_json_get_def)

lemma redis_json_arrpop_hit:
  assumes "no_faults s" and "docs s key = Some (JArr xs)"
    and "arrpop_position (negidx s) index (length xs) = Some p"
  shows "redis_json_arrpop key index s =
     (Inr (Some (xs ! p)),
      (snd (transport (JsonArrPop key index) s))\<lparr>docs := (docs s)(key \<mapsto> JArr (remove_at p xs))\<rparr>)"
  using assms transport_ok [of s "JsonArrPop key index"]
    transport_docs [of "JsonArrPop key index" s] transport_negidx [of "JsonArrPop key index" s]
  by (cases "transport (JsonArrPop key index) s") (simp add: redis_json_arrpop_def)

lemma redis_json_arrpop_miss:
  assumes "no_faults s"
    and "docs s key = None \<or>
         (\<exists>xs. docs s key = Some (JArr xs) \<and> arrpop_position (negidx s) index (length xs) = None)"
  shows "redis_json_arrpop key index s = (Inr None, snd (transport (JsonArrPop key index) s))"
  using assms transport_ok [of s "JsonArrPop key index"]
    transport_docs [of "JsonArrPop key index" s] transport_negidx [of "JsonArrPop key index" s]
  by (cases "transport (JsonArrPop key index) s") (auto simp: redis_json_arrpop_def)

lemma arrpop_position_out:
  "int n \<le> i \<or> (i < 0 \<and> neg i n = None) \<Longrightarrow> arrpop_position neg i n = None"
  by (auto simp: arrpop_position_def)

section \<open>Facts about the handlers\<close>

lemma remember_present:
  assumes "getUser rq = Some u" and "u \<noteq> []" and "no_faults s"
    and "docs s (getMemoryKey u) = Some (JArr xs)"
  shows "remember rq r t s =
     (text_result (''Stored memory about: '' @ r @ '' on '' @ t @ '' UTC''),
      (snd (transport (JsonArrAppend (getMemoryKey u) (JStr r))
             (snd (transport (Exists (getMemoryKey u)) s))))
        \<lparr>docs := (docs s)(getMemoryKey u \<mapsto> JArr (xs @ [JStr r]))\<rparr>)"
  using assms
  by (simp add: Let_def remember_def remember_as_def not_user_def redis_exists_ok
      remember_resume_def redis_json_arrappend_ok)

lemma remember_absent:
  assumes "getUser rq = Some u" and "u \<noteq> []" and "no_faults s"
    and "docs s (getMemoryKey u) = None"
  shows "remember rq r t s =
     (text_result (''Stored memory about: '' @ r @ '' on '' @ t @ '' UTC''),
      (snd (transport (JsonSet (getMemoryKey u) (JArr [JStr r]))
             (snd (transport (Exists (getMemoryKey u)) s))))
        \<lparr>docs := (docs s)(getMemoryKey u \<mapsto> JArr [JStr r])\<rparr>)"
  using assms
  by (simp add: Let_def remember_def remember_as_def not_user_def redis_exists_ok
      remember_resume_def redis_json_set_ok)

lemma remember_all_present:
  assumes "getUser rq = Some u" and "u \<noteq> []"
  shows "no_faults s \<Longrightarrow> docs s (getMemoryKey u) = Some (JArr xs) \<Longrightarrow>
         no_faults (remember_all rq rts s) \<and>
         docs (remember_all rq rts s) (getMemoryKey u) = Some (JArr (xs @ map (JStr \<circ> fst) rts))"
proof (induction rts arbitrary: s xs)
  case Nil
  then show ?case by simp
next
  case (Cons rt rts)
  obtain r t where rt: "rt = (r, t)" by (cases rt)
  let ?s = "snd (remember rq r t s)"
  have "no_faults ?s" "docs ?s (getMemoryKey u) = Some (JArr (xs @ [JStr r]))"
    using remember_present [OF assms Cons.prems, of r t] Cons.prems(1) by simp_all
  from Cons.IH [OF this] show ?case by (simp add: rt)
qed

lemma remember_all_absent:
  assumes "getUser rq = Some u" and "u \<noteq> []" and "no_faults s"
    and "docs s (getMemoryKey u) = None"
  shows "no_faults (remember_all rq rts s) \<and>
         docs (remember_all rq rts s) (getMemoryKey u) =
           (if rts = [] then None else Some (JArr (map (JStr \<circ> fst) rts)))"
proof (cases rts)
  case Nil
  then show ?thesis using assms by simp
next
  case (Cons rt rts')
  obtain r t where rt: "rt = (r, t)" by (cases rt)
  let ?s = "snd (remember rq r t s)"
  have "no_faults ?s" "docs ?s (getMemoryKey u) = Some (JArr ([] @ [JStr r]))"
    using remember_absent [OF assms, of r t] assms(3) by simp_all
  from remember_all_present [OF assms(1,2) this] show ?thesis by (simp add: Cons rt)
qed

lemma recall_ok:
  assumes "getUser rq = Some u" and "u \<noteq> []" and "no_faults s"
  shows "recall href rq s =
     (json_resource href (memoryData (docs s (getMemoryKey u))),
      snd (transport (JsonGet (getMemoryKey u)) s))"
  using assms by (simp add: Let_def recall_def recall_as_def not_user_def redis_json_get_ok)

lemma forget_hit:
  assumes "getUser rq = Some u" and "u \<noteq> []" and "no_faults s"
    and "docs s (getMemoryKey u) = Some (JArr xs)"
    and "arrpop_position (negidx s) i (length xs) = Some p"
  shows "forget rq i s =
     (text_result (''Removed memory item at index '' @ show_int i @ '' about: '' @ js_string (xs ! p)),
      (snd (transport (JsonArrPop (getMemoryKey u) i) s))
        \<lparr>docs := (docs s)(getMemoryKey u \<mapsto> JArr (remove_at p xs))\<rparr>)"
  using assms(1,2) redis_json_arrpop_hit [OF assms(3,4,5)]
  by (simp add: Let_def forget_def forget_as_def not_user_def)

lemma forget_miss:
  assumes "getUser rq = Some u" and "u \<noteq> []" and "no_faults s"
    and "docs s (getMemoryKey u) = None \<or>
         (\<exists>xs. docs s (getMemoryKey u) = Some (JArr xs) \<and>
               arrpop_position (negidx s) i (length xs) = None)"
  shows "forget rq i s =
     (text_result (''No memory item found at index '' @ show_int i @ ''.''),
      snd (transport (JsonArrPop (getMemoryKey u) i) s))"
  using assms(1,2) redis_json_arrpop_miss [OF assms(3,4)]
  by (simp add: Let_def forget_def forget_as_def not_user_def)

lemma remove_at_length: "p < length xs \<Longrightarrow> length (remove_at p xs) = length xs - 1"
  by (simp add: remove_at_def)

lemma remove_at_before: "j < p \<Longrightarrow> p < length xs \<Longrightarrow> remove_at p xs ! j = xs ! j"
  by (simp add: remove_at_def nth_append)

lemma remove_at_after:
  "p \<le> j \<Longrightarrow> j < length xs - 1 \<Longrightarrow> p < length xs \<Longrightarrow> remove_at p xs ! j = xs ! Suc j"
  by (simp add: remove_at_def nth_append min_def)

lemma remove_at_map: "remove_at p (map f xs) = map f (remove_at p xs)"
  by (simp add: remove_at_def take_map drop_map)

text \<open>
  The earlier variant of the server (part_000): \<open>memory.remember\<close> and \<open>memory.forget\<close>
  answer as those of server.ts do on a request with the same headers, and throw when the
  framework passes no \<open>request\<close>; \<open>memory.recall\<close> throws on every call and touches no
  store.
\<close>

lemma variant_agrees:
  "remember0 (Some hs) r t s =
     (Inr (fst (remember (Some (RequestInfo (Some hs))) r t s)),
      snd (remember (Some (RequestInfo (Some hs))) r t s))"
  "forget0 (Some hs) i s =
     (Inr (fst (forget (Some (RequestInfo (Some hs))) i s)),
      snd (forget (Some (RequestInfo (Some hs))) i s))"
  by (simp_all add: remember0_def remember_def forget0_def forget_def getUser0_def getUser_def
      split: prod.splits)

lemma variant_throws:
  "remember0 None r t s = (Inl TypeError, s)"
  "forget0 None i s = (Inl TypeError, s)"
  "recall0 s = (Inl TypeError, s)"
  by (simp_all add: remember0_def forget0_def recall0_def getUser0_def)

section \<open>The scenario of the specification, evaluated\<close>

text \<open>
  From a store without documents: remember "likes tea", recall; then, on the list
  \<open>["likes tea", "works at Acme"]\<close>: forget index 0, recall, forget index 5.
\<close>

lemma show_int_examples:
  "show_int 0 = ''0''" "show_int 5 = ''5''" "show_int (- 1) = ''-1''" "show_int 120 = ''120''"
  by code_simp+

text \<open>From \<open>10^21\<close> on the index is shown in exponent notation.\<close>

lemma bits_0: "bits 0 = 0"
  by (simp add: bits.simps)

lemma bits_1: "bits (Suc 0) = Suc 0"
  by (simp add: bits.simps [of "Suc 0"] bits_0)

lemma bits_numeral: "bits (numeral k) = Suc (bits (numeral k div 2))"
  by (subst bits.simps) simp

lemma bits_example: "bits 1000000000000000000000 = 70"
  by (simp add: bits_numeral bits_0 bits_1)

lemma rounds_to_example:
  "rounds_to 1000000000000000000000 1000000000000000000000"
  "\<not> rounds_to 1000000000000000000000 10000000000000000000000"
  "\<not> rounds_to 1000000000000000000000 0"
  "\<not> rounds_to 1000000000000000000000 2000000000000000000000"
  by (simp_all add: rounds_to_def bits_example Let_def)

lemma length_example: "length (show_nat 1000000000000000000000) = 22"
  by (simp add: show_nat.simps)

lemma show_int_large: "show_int (10 ^ 21) = ''1e+21''"
  using rounds_to_example
  by (simp add: show_int_def number_toString_def length_example show_nat.simps digit_def
      Let_def)

lemma stringify_examples:
  "JSON_stringify (JArr []) = ''[]''"
  "JSON_stringify (JArr [JStr ''likes tea'', JStr ''works at Acme'']) =
     ''['' @ [CHR 0x22] @ ''likes tea'' @ [CHR 0x22] @ '','' @ [CHR 0x22] @ ''works at Acme''
       @ [CHR 0x22] @ '']''"
  "JSON_stringify (JObj [(''error'', JStr ''User not found'')]) =
     ''{'' @ [CHR 0x22] @ ''error'' @ [CHR 0x22] @ '':'' @ [CHR 0x22] @ ''User not found''
       @ [CHR 0x22] @ ''}''"
  by (simp_all add: quote_def escape_char_def)

lemma concrete_scenario:
  "fst (recall ''resource://memory.recall'' ann
          (snd (remember ann ''likes tea'' ''t1'' fresh_store))) =
     ResourceResult [ResourceItem ''resource://memory.recall'' ''application/json''
       (''['' @ [CHR 0x22] @ ''likes tea'' @ [CHR 0x22] @ '']'')]"
  "fst (forget ann 0 tea_store) = text_result ''Removed memory item at index 0 about: likes tea''"
  "fst (recall ''resource://memory.recall'' ann (snd (forget ann 0 tea_store))) =
     ResourceResult [ResourceItem ''resource://memory.recall'' ''application/json''
       (''['' @ [CHR 0x22] @ ''works at Acme'' @ [CHR 0x22] @ '']'')]"
  "fst (forget ann 5 tea_store) = text_result ''No memory item found at index 5.''"
  "docs (snd (forget ann 5 tea_store)) = docs tea_store"
  by (simp_all add: recall_def recall_as_def remember_def remember_as_def remember_resume_def
      forget_def forget_as_def ann_def getUser_def not_user_def getMemoryKey_def fresh_store_def
      tea_store_def redis_exists_def redis_json_set_def redis_json_arrappend_def
      redis_json_arrpop_def redis_json_get_def transport_def arrpop_position_def remove_at_def
      memoryData_def json_resource_def quote_def escape_char_def show_int_examples
      strict_index_def Let_def)

section \<open>The claims\<close>

lemma ann_user: "getUser ann = Some ''ann''"
  by (simp add: ann_def getUser_def)

lemma fresh_store_no_faults: "no_faults fresh_store"
  by (simp add: fresh_store_def no_faults_def)

lemma tea_store_no_faults: "no_faults tea_store"
  by (simp add: tea_store_def no_faults_def)

lemma tea_store_docs:
  "docs tea_store (getMemoryKey ''ann'') = Some (JArr (map JStr [''likes tea'', ''works at Acme'']))"
  by (simp add: tea_store_def getMemoryKey_def)

text \<open>
  C1. A signed-in caller appends the records \<open>r1, ..., rn\<close> in order to a key that is
  absent, no call is hit by a transport failure, and nothing else touches the key. Then
  \<open>memory.recall\<close> answers with the JSON text of exactly \<open>[r1, ..., rn]\<close>, in the order of
  insertion, and the value it serialises is that array.
\<close>

theorem append_then_recall:
  assumes "getUser rq = Some u" and "u \<noteq> []"
    and "no_faults s" and "docs s (getMemoryKey u) = None"
  shows "fst (recall href rq (remember_all rq rts s)) =
           ResourceResult [ResourceItem href ''application/json''
             (JSON_stringify (JArr (map JStr (map fst rts))))]
         \<and> memoryData (docs (remember_all rq rts s) (getMemoryKey u)) =
             JArr (map JStr (map fst rts))"
  using remember_all_absent [OF assms, of rts]
    recall_ok [OF assms(1,2), of "remember_all rq rts s" href]
  by (simp add: memoryData_def json_resource_def)

theorem append_then_recall_witness:
  "getUser ann = Some ''ann'' \<and> ''ann'' \<noteq> [] \<and> no_faults fresh_store
   \<and> docs fresh_store (getMemoryKey ''ann'') = None
   \<and> fst (recall ''resource://memory.recall'' ann
        (remember_all ann [(''likes tea'', ''t1''), (''works at Acme'', ''t2'')] fresh_store)) =
       ResourceResult [ResourceItem ''resource://memory.recall'' ''application/json''
         (''['' @ [CHR 0x22] @ ''likes tea'' @ [CHR 0x22] @ '','' @ [CHR 0x22] @ ''works at Acme''
            @ [CHR 0x22] @ '']'')]"
proof -
  have h: "''ann'' \<noteq> []" "docs fresh_store (getMemoryKey ''ann'') = None"
    by (simp_all add: fresh_store_def)
  show ?thesis
    using append_then_recall [OF ann_user h(1) fresh_store_no_faults h(2),
        of "''resource://memory.recall''" "[(''likes tea'', ''t1''), (''works at Acme'', ''t2'')]"]
      ann_user h fresh_store_no_faults
    by (simp add: quote_def escape_char_def)
qed

text \<open>
  C2. The list of a signed-in caller is present with \<open>n\<close> text items, \<open>0 \<le> i < n\<close>, and the
  call is not hit by a transport failure. Then \<open>memory.forget\<close> with index \<open>i\<close> answers
  with the one text item "Removed memory item at index i about: " followed by the item
  that was at position \<open>i\<close>, the stored list is
  the old one without that position (\<open>n - 1\<close> items, the items before \<open>i\<close> where they were,
  the items after \<open>i\<close> one position down), and \<open>memory.recall\<close> afterwards answers with the
  JSON text of that shortened list.
\<close>

theorem forget_in_range:
  assumes "getUser rq = Some u" and "u \<noteq> []" and "no_faults s"
    and "docs s (getMemoryKey u) = Some (JArr (map JStr items))"
    and "0 \<le> i" and "i < int (length items)"
  shows "fst (forget rq i s) =
           ToolResult [TextContent ''text''
             (''Removed memory item at index '' @ show_int i @ '' about: '' @ items ! nat i)]
         \<and> docs (snd (forget rq i s)) (getMemoryKey u) =
             Some (JArr (map JStr (remove_at (nat i) items)))
         \<and> length (remove_at (nat i) items) = length items - 1
         \<and> (\<forall>j. j < nat i \<longrightarrow> remove_at (nat i) items ! j = items ! j)
         \<and> (\<forall>j. nat i \<le> j \<and> j < length items - 1 \<longrightarrow>
                remove_at (nat i) items ! j = items ! Suc j)
         \<and> fst (recall href rq (snd (forget rq i s))) =
             ResourceResult [ResourceItem href ''application/json''
               (JSON_stringify (JArr (map JStr (remove_at (nat i) items))))]"
proof -
  let ?p = "nat i"
  have p: "?p < length items" using assms(5,6) by simp
  have pos: "arrpop_position (negidx s) i (length (map JStr items)) = Some ?p"
    using assms(5,6) by (simp add: arrpop_position_def)
  note f = forget_hit [OF assms(1-4) pos]
  have nf: "no_faults (snd (forget rq i s))"
    using assms(3) by (simp add: f)
  have d: "docs (snd (forget rq i s)) (getMemoryKey u) =
             Some (JArr (map JStr (remove_at ?p items)))"
    by (simp add: f remove_at_map)
  have r: "fst (recall href rq (snd (forget rq i s))) =
             ResourceResult [ResourceItem href ''application/json''
               (JSON_stringify (JArr (map JStr (remove_at ?p items))))]"
    using recall_ok [OF assms(1,2) nf, of href] d
    by (simp add: memoryData_def json_resource_def)
  have t: "fst (forget rq i s) =
           ToolResult [TextContent ''text''
             (''Removed memory item at index '' @ show_int i @ '' about: '' @ items ! ?p)]"
    using p by (simp add: f text_result_def)
  show ?thesis
    using t d r p by (simp add: remove_at_length remove_at_before remove_at_after)
qed

theorem forget_in_range_witness:
  "getUser ann = Some ''ann'' \<and> ''ann'' \<noteq> [] \<and> no_faults tea_store
   \<and> docs tea_store (getMemoryKey ''ann'') =
       Some (JArr (map JStr [''likes tea'', ''works at Acme'']))
   \<and> (0::int) \<le> 0 \<and> (0::int) < int (length [''likes tea'', ''works at Acme''])
   \<and> fst (forget ann 0 tea_store) =
       ToolResult [TextContent ''text'' ''Removed memory item at index 0 about: likes tea'']
   \<and> docs (snd (forget ann 0 tea_store)) (getMemoryKey ''ann'') =
       Some (JArr [JStr ''works at Acme''])"
proof -
  have h: "''ann'' \<noteq> []" "(0::int) \<le> 0"
    "(0::int) < int (length [''likes tea'', ''works at Acme''])"
    by simp_all
  show ?thesis
    using forget_in_range [OF ann_user h(1) tea_store_no_faults tea_store_docs h(2,3)]
      ann_user tea_store_no_faults tea_store_docs
    by (simp add: remove_at_def show_int_examples)
qed

text \<open>
  C3. A signed-in caller calls \<open>memory.forget\<close> and the call is not hit by a transport
  failure. If the key is absent, or the index is outside the bounds of the stored list
  (at or beyond its length, or negative where the store resolves no negative index to a
  position), the answer is the "No memory item found at index" text, which is not the
  store-error text; one primitive call is made and the documents are left as they were.
\<close>

theorem forget_not_found:
  assumes "getUser rq = Some u" and "u \<noteq> []" and "no_faults s"
    and "docs s (getMemoryKey u) = None \<or>
         (\<exists>xs. docs s (getMemoryKey u) = Some (JArr xs) \<and>
               (int (length xs) \<le> i \<or> (i < 0 \<and> negidx s i (length xs) = None)))"
  shows "fst (forget rq i s) =
           text_result (''No memory item found at index '' @ show_int i @ ''.'')
         \<and> fst (forget rq i s) \<noteq>
             text_result (''Error removing memory item '' @ show_int i @ '': '' @ msg)
         \<and> docs (snd (forget rq i s)) = docs s
         \<and> calls (snd (forget rq i s)) = calls s @ [JsonArrPop (getMemoryKey u) i]"
proof -
  have "docs s (getMemoryKey u) = None \<or>
        (\<exists>xs. docs s (getMemoryKey u) = Some (JArr xs) \<and>
              arrpop_position (negidx s) i (length xs) = None)"
    using assms(4) arrpop_position_out [of _ i "negidx s"] by blast
  from forget_miss [OF assms(1-3) this] show ?thesis
    by (simp add: text_result_def)
qed

theorem forget_not_found_witness:
  "getUser ann = Some ''ann'' \<and> ''ann'' \<noteq> [] \<and> no_faults fresh_store \<and> no_faults tea_store
   \<and> docs fresh_store (getMemoryKey ''ann'') = None
   \<and> docs tea_store (getMemoryKey ''ann'') =
        Some (JArr (map JStr [''likes tea'', ''works at Acme'']))
   \<and> fst (forget ann 0 fresh_store) =
        text_result ''No memory item found at index 0.''
   \<and> fst (forget ann 5 tea_store) =
        text_result ''No memory item found at index 5.''
   \<and> docs (snd (forget ann 5 tea_store)) = docs tea_store
   \<and> fst (forget ann (- 1) tea_store) =
        text_result ''No memory item found at index -1.''"
proof -
  have h: "''ann'' \<noteq> []" by simp
  have a: "docs fresh_store (getMemoryKey ''ann'') = None"
    by (simp add: fresh_store_def)
  have b: "docs tea_store (getMemoryKey ''ann'') = None \<or>
         (\<exists>xs. docs tea_store (getMemoryKey ''ann'') = Some (JArr xs) \<and>
               (int (length xs) \<le> 5 \<or> (5 < (0::int) \<and> negidx tea_store 5 (length xs) = None)))"
    using tea_store_docs by simp
  have c: "docs tea_store (getMemoryKey ''ann'') = None \<or>
         (\<exists>xs. docs tea_store (getMemoryKey ''ann'') = Some (JArr xs) \<and>
               (int (length xs) \<le> - 1 \<or>
                (- 1 < (0::int) \<and> negidx tea_store (- 1) (length xs) = None)))"
    using tea_store_docs by (simp add: tea_store_def strict_index_def)
  show ?thesis
    using forget_not_found [OF ann_user h fresh_store_no_faults disjI1 [OF a], of 0]
      forget_not_found [OF ann_user h tea_store_no_faults b]
      forget_not_found [OF ann_user h tea_store_no_faults c]
      ann_user fresh_store_no_faults tea_store_no_faults a tea_store_docs
    by (simp add: show_int_examples)
qed




text \<open>
  C6. When the request carries no identity (no request metadata, no headers, no
  \<open>x-user-email\<close> header, or an empty one), \<open>memory.remember\<close>, \<open>memory.forget\<close> and
  \<open>memory.recall\<close> each answer with their fixed guest response, whatever the record, the
  index or the state of the store, and return the store as it was: its documents and its
  log of primitive calls are unchanged, so no store call was made.
\<close>

theorem guest_makes_no_store_call:
  assumes "not_user (getUser rq)"
  shows "remember rq record timestamp s =
           (ToolResult [TextContent ''text'' ''Memory feature is not available for guest users.''], s)
         \<and> forget rq index s =
           (ToolResult [TextContent ''text'' ''Memory feature is not available for guest users.''], s)
         \<and> recall href rq s =
           (ResourceResult [ResourceItem href ''application/json''
              (JSON_stringify (JObj [(''error'', JStr ''User not found'')]))], s)"
  using assms
  by (simp add: remember_def remember_as_def forget_def forget_as_def recall_def recall_as_def
      guest_result_def text_result_def json_resource_def)

theorem guest_makes_no_store_call_witness:
  "not_user (getUser guest) \<and> not_user (getUser None)
   \<and> remember guest ''likes tea'' ''t1'' tea_store =
       (ToolResult [TextContent ''text'' ''Memory feature is not available for guest users.''],
        tea_store)
   \<and> forget None 0 tea_store =
       (ToolResult [TextContent ''text'' ''Memory feature is not available for guest users.''],
        tea_store)"
proof -
  have g: "not_user (getUser guest)" "not_user (getUser None)"
    by (simp_all add: guest_def getUser_def not_user_def)
  show ?thesis
    using guest_makes_no_store_call [OF g(1), of "''likes tea''" "''t1''" tea_store]
      guest_makes_no_store_call [OF g(2), of _ _ tea_store 0] g
    by simp
qed

lemma guest_makes_no_store_call0:
  assumes "getUser0 request = Inr user" and "not_user user"
  shows "remember0 request r t s = (Inr guest_result, s)
         \<and> forget0 request index s = (Inr guest_result, s)"
  using assms by (simp add: remember0_def remember_as_def forget0_def forget_as_def)

text \<open>
  C7. A signed-in caller's call is hit by a failure of a store primitive with message
  \<open>msg\<close>. \<open>memory.remember\<close> answers with the text "Error storing memory item: msg",
  whether it is the existence check that fails (one primitive call made) or the write
  after it (two calls made: the check and one write); \<open>memory.forget\<close> answers with
  "Error removing memory item i: msg" and \<open>memory.recall\<close> with the JSON object
  \<open>{"error": msg}\<close>, each after the one failed call. The failed call is never issued
  again, the documents are left as they were, and the handler returns a response, not
  the error.
\<close>

theorem store_failure_is_answered:
  assumes "getUser rq = Some u" and "u \<noteq> []"
  shows "(faults s = Some msg # fs \<longrightarrow>
            remember rq record timestamp s =
              (ToolResult [TextContent ''text'' (''Error storing memory item: '' @ msg)],
               s\<lparr>faults := fs, calls := calls s @ [Exists (getMemoryKey u)]\<rparr>))
         \<and> (faults s = None # Some msg # fs \<longrightarrow>
            remember rq record timestamp s =
              (ToolResult [TextContent ''text'' (''Error storing memory item: '' @ msg)],
               s\<lparr>faults := fs,
                  calls := calls s @
                    [Exists (getMemoryKey u),
                     if docs s (getMemoryKey u) \<noteq> None
                     then JsonArrAppend (getMemoryKey u) (JStr record)
                     else JsonSet (getMemoryKey u) (JArr [JStr record])]\<rparr>))
         \<and> (faults s = Some msg # fs \<longrightarrow>
            forget rq index s =
              (ToolResult [TextContent ''text''
                 (''Error removing memory item '' @ show_int index @ '': '' @ msg)],
               s\<lparr>faults := fs, calls := calls s @ [JsonArrPop (getMemoryKey u) index]\<rparr>))
         \<and> (faults s = Some msg # fs \<longrightarrow>
            recall href rq s =
              (ResourceResult [ResourceItem ''resource://memory.recall'' ''application/json''
                 (JSON_stringify (JObj [(''error'', JStr msg)]))],
               s\<lparr>faults := fs, calls := calls s @ [JsonGet (getMemoryKey u)]\<rparr>))"
proof -
  have r1: "remember rq record timestamp s =
              (ToolResult [TextContent ''text'' (''Error storing memory item: '' @ msg)],
               s\<lparr>faults := fs, calls := calls s @ [Exists (getMemoryKey u)]\<rparr>)"
    if "faults s = Some msg # fs"
    using assms transport_fault [OF that]
    by (simp add: Let_def remember_def remember_as_def not_user_def redis_exists_def
        remember_resume_def text_result_def)
  have r2: "remember rq record timestamp s =
              (ToolResult [TextContent ''text'' (''Error storing memory item: '' @ msg)],
               s\<lparr>faults := fs,
                  calls := calls s @
                    [Exists (getMemoryKey u),
                     if docs s (getMemoryKey u) \<noteq> None
                     then JsonArrAppend (getMemoryKey u) (JStr record)
                     else JsonSet (getMemoryKey u) (JArr [JStr record])]\<rparr>)"
    if "faults s = None # Some msg # fs"
  proof -
    let ?s1 = "s\<lparr>faults := Some msg # fs, calls := calls s @ [Exists (getMemoryKey u)]\<rparr>"
    have e: "redis_exists (getMemoryKey u) s = (Inr (docs s (getMemoryKey u) \<noteq> None), ?s1)"
      using transport_pass [OF that] by (simp add: redis_exists_def)
    have f: "faults ?s1 = Some msg # fs" by simp
    show ?thesis
      using assms e transport_fault [OF f]
      by (simp add: Let_def remember_def remember_as_def not_user_def remember_resume_def
          redis_json_arrappend_def redis_json_set_def text_result_def)
  qed
  have f1: "forget rq index s =
              (ToolResult [TextContent ''text''
                 (''Error removing memory item '' @ show_int index @ '': '' @ msg)],
               s\<lparr>faults := fs, calls := calls s @ [JsonArrPop (getMemoryKey u) index]\<rparr>)"
    if "faults s = Some msg # fs"
    using assms transport_fault [OF that]
    by (simp add: Let_def forget_def forget_as_def not_user_def redis_json_arrpop_def
        text_result_def)
  have c1: "recall href rq s =
              (ResourceResult [ResourceItem ''resource://memory.recall'' ''application/json''
                 (JSON_stringify (JObj [(''error'', JStr msg)]))],
               s\<lparr>faults := fs, calls := calls s @ [JsonGet (getMemoryKey u)]\<rparr>)"
    if "faults s = Some msg # fs"
    using assms transport_fault [OF that]
    by (simp add: Let_def recall_def recall_as_def not_user_def redis_json_get_def
        json_resource_def)
  show ?thesis using r1 r2 f1 c1 by blast
qed

theorem store_failure_is_answered_witness:
  "getUser ann = Some ''ann'' \<and> ''ann'' \<noteq> []
   \<and> faults (tea_store\<lparr>faults := [Some ''timeout'']\<rparr>) = Some ''timeout'' # []
   \<and> faults (tea_store\<lparr>faults := [None, Some ''timeout'']\<rparr>) = None # Some ''timeout'' # []
   \<and> remember ann ''has a cat'' ''t1'' (tea_store\<lparr>faults := [Some ''timeout'']\<rparr>) =
       (ToolResult [TextContent ''text'' ''Error storing memory item: timeout''],
        tea_store\<lparr>faults := [], calls := [Exists ''memory:ann'']\<rparr>)
   \<and> remember ann ''has a cat'' ''t1'' (tea_store\<lparr>faults := [None, Some ''timeout'']\<rparr>) =
       (ToolResult [TextContent ''text'' ''Error storing memory item: timeout''],
        tea_store\<lparr>faults := [],
          calls := [Exists ''memory:ann'', JsonArrAppend ''memory:ann'' (JStr ''has a cat'')]\<rparr>)"
proof -
  have h: "''ann'' \<noteq> []" by simp
  show ?thesis
    using store_failure_is_answered [OF ann_user h,
        of "tea_store\<lparr>faults := [Some ''timeout'']\<rparr>" "''timeout''" "[]" "''has a cat''" "''t1''"]
      store_failure_is_answered [OF ann_user h,
        of "tea_store\<lparr>faults := [None, Some ''timeout'']\<rparr>" "''timeout''" "[]" "''has a cat''" "''t1''"]
      ann_user
    by (simp add: tea_store_def getMemoryKey_def)
qed

text \<open>
  C10. A signed-in caller calls \<open>memory.remember\<close> and the key already holds a document.
  Whatever the transport does, the call issues the existence check and at most the one
  array-append after it, never a whole-document set; every other key keeps its document;
  and the document at the key is the old one or the old array with the record added at
  the tail, so every element stored before is where it was. If nothing fails and the
  document is an array, the append is issued and the record is at the tail.
\<close>

theorem remember_existing_key:
  assumes "getUser rq = Some u" and "u \<noteq> []"
    and "docs s (getMemoryKey u) = Some d"
  shows "(calls (snd (remember rq record timestamp s)) = calls s @ [Exists (getMemoryKey u)]
          \<or> calls (snd (remember rq record timestamp s)) =
              calls s @ [Exists (getMemoryKey u), JsonArrAppend (getMemoryKey u) (JStr record)])
         \<and> (\<forall>k. k \<noteq> getMemoryKey u \<longrightarrow>
                docs (snd (remember rq record timestamp s)) k = docs s k)
         \<and> (docs (snd (remember rq record timestamp s)) (getMemoryKey u) = Some d
            \<or> (\<exists>xs. d = JArr xs \<and>
                  docs (snd (remember rq record timestamp s)) (getMemoryKey u) =
                    Some (JArr (xs @ [JStr record]))))
         \<and> (no_faults s \<and> d = JArr xs \<longrightarrow>
               calls (snd (remember rq record timestamp s)) =
                 calls s @ [Exists (getMemoryKey u), JsonArrAppend (getMemoryKey u) (JStr record)]
               \<and> docs (snd (remember rq record timestamp s)) (getMemoryKey u) =
                   Some (JArr (xs @ [JStr record])))"
proof -
  let ?key = "getMemoryKey u"
  let ?s' = "snd (remember rq record timestamp s)"
  obtain r s1 where e: "redis_exists ?key s = (r, s1)" by (cases "redis_exists ?key s")
  have s1: "docs s1 = docs s" "calls s1 = calls s @ [Exists ?key]"
    and r: "r = Inr True \<or> (\<exists>msg. r = Inl msg)"
    using e assms(3)
    by (cases "transport (Exists ?key) s";
        auto simp: redis_exists_def transport_def split: list.splits option.splits)+
  have rem: "remember rq record timestamp s = remember_resume ?key record timestamp r s1"
    using assms(1,2) e by (simp add: Let_def remember_def remember_as_def not_user_def)
  from r have "(calls ?s' = calls s @ [Exists ?key]
          \<or> calls ?s' = calls s @ [Exists ?key, JsonArrAppend ?key (JStr record)])
         \<and> (\<forall>k. k \<noteq> ?key \<longrightarrow> docs ?s' k = docs s k)
         \<and> (docs ?s' ?key = Some d
            \<or> (\<exists>xs. d = JArr xs \<and> docs ?s' ?key = Some (JArr (xs @ [JStr record]))))"
  proof
    assume "r = Inr True"
    then show ?thesis
      using s1 assms(3)
      by (cases "transport (JsonArrAppend ?key (JStr record)) s1")
        (auto simp: rem remember_resume_def redis_json_arrappend_def transport_def
          split: list.splits option.splits json.splits)
  next
    assume "\<exists>msg. r = Inl msg"
    then show ?thesis
      using s1 assms(3) by (auto simp: rem remember_resume_def)
  qed
  moreover have "calls ?s' = calls s @ [Exists ?key, JsonArrAppend ?key (JStr record)]
               \<and> docs ?s' ?key = Some (JArr (xs @ [JStr record]))"
    if "no_faults s" "d = JArr xs"
    using remember_present [OF assms(1,2) that(1), of xs] assms(3) that(2)
    by simp
  ultimately show ?thesis by blast
qed

theorem remember_existing_key_witness:
  "getUser ann = Some ''ann'' \<and> ''ann'' \<noteq> []
   \<and> docs tea_store (getMemoryKey ''ann'') =
        Some (JArr (map JStr [''likes tea'', ''works at Acme'']))
   \<and> no_faults tea_store
   \<and> calls (snd (remember ann ''has a cat'' ''t1'' tea_store)) =
        calls tea_store @ [Exists (getMemoryKey ''ann''),
                           JsonArrAppend (getMemoryKey ''ann'') (JStr ''has a cat'')]
   \<and> docs (snd (remember ann ''has a cat'' ''t1'' tea_store)) (getMemoryKey ''ann'') =
        Some (JArr [JStr ''likes tea'', JStr ''works at Acme'', JStr ''has a cat''])
   \<and> docs (snd (remember ann ''has a cat'' ''t1'' tea_store)) (getMemoryKey ''bob'') =
        docs tea_store (getMemoryKey ''bob'')"
proof -
  have h: "''ann'' \<noteq> []" by simp
  have k: "getMemoryKey ''bob'' \<noteq> getMemoryKey ''ann''" by (simp add: getMemoryKey_def)
  show ?thesis
    using remember_existing_key [OF ann_user h tea_store_docs,
        of "''has a cat''" "''t1''" "map JStr [''likes tea'', ''works at Acme'']"]
      ann_user tea_store_docs tea_store_no_faults k
    by simp
qed



lemma remember_as_check_then_resume:
  "\<not> not_user (Some u) \<Longrightarrow>
   remember_as (Some u) r t s =
     remember_resume (getMemoryKey u) r t (fst (redis_exists (getMemoryKey u) s))
       (snd (redis_exists (getMemoryKey u) s))"
  by (simp add: remember_as_def Let_def split: prod.splits)

section \<open>Every step of a handler is a step of the state machine\<close>

lemma redis_exists_docs: "docs (snd (redis_exists k s)) = docs s"
  using transport_docs [of "Exists k" s]
  by (cases "transport (Exists k) s") (auto simp: redis_exists_def split: option.splits)

lemma redis_json_get_docs: "docs (snd (redis_json_get k s)) = docs s"
  using transport_docs [of "JsonGet k" s]
  by (cases "transport (JsonGet k) s") (auto simp: redis_json_get_def split: option.splits)

lemma redis_json_set_step:
  "doc_step (docs s) (docs (snd (redis_json_set k (JArr [JStr r]) s)))"
  using transport_docs [of "JsonSet k (JArr [JStr r])" s]
  by (cases "transport (JsonSet k (JArr [JStr r])) s")
    (auto simp: redis_json_set_def split: option.splits intro: doc_step.intros)

lemma redis_json_arrappend_step:
  "doc_step (docs s) (docs (snd (redis_json_arrappend k (JStr r) s)))"
  using transport_docs [of "JsonArrAppend k (JStr r)" s]
  by (cases "transport (JsonArrAppend k (JStr r)) s")
    (auto simp: redis_json_arrappend_def split: option.splits json.splits
      intro: doc_step.intros)

lemma arrpop_position_less: "arrpop_position neg i n = Some p \<Longrightarrow> p < n"
  by (auto simp: arrpop_position_def split: if_splits option.splits)

lemma redis_json_arrpop_step:
  "doc_step (docs s) (docs (snd (redis_json_arrpop k i s)))"
  using transport_docs [of "JsonArrPop k i" s]
  by (cases "transport (JsonArrPop k i) s")
    (auto simp: redis_json_arrpop_def split: option.splits json.splits
      intro: doc_step.intros dest: arrpop_position_less)

lemma remember_resume_step:
  "doc_step (docs s) (docs (snd (remember_resume key r t res s)))"
proof (cases res)
  case (Inl msg)
  then show ?thesis by (simp add: remember_resume_def doc_step.same)
next
  case (Inr e)
  show ?thesis
  proof (cases e)
    case True
    then show ?thesis
      using redis_json_arrappend_step [of s key r] Inr
      by (cases "redis_json_arrappend key (JStr r) s")
        (auto simp: remember_resume_def split: sum.splits)
  next
    case False
    then show ?thesis
      using redis_json_set_step [of s key r] Inr
      by (cases "redis_json_set key (JArr [JStr r]) s")
        (auto simp: remember_resume_def split: sum.splits)
  qed
qed

lemma remember_as_step: "doc_step (docs s) (docs (snd (remember_as user r t s)))"
proof (cases "not_user user")
  case True
  then show ?thesis by (simp add: remember_as_def doc_step.same)
next
  case False
  then obtain u where u: "user = Some u" by (cases user) (auto simp: not_user_def)
  obtain res s1 where e: "redis_exists (getMemoryKey u) s = (res, s1)"
    by (cases "redis_exists (getMemoryKey u) s")
  have "docs s1 = docs s" using redis_exists_docs [of "getMemoryKey u" s] e by simp
  then show ?thesis
    using False u e remember_resume_step [of s1 "getMemoryKey u" r t res]
    by (simp add: remember_as_def Let_def)
qed

lemma forget_as_step: "doc_step (docs s) (docs (snd (forget_as user i s)))"
proof (cases "not_user user")
  case True
  then show ?thesis by (simp add: forget_as_def doc_step.same)
next
  case False
  then obtain u where u: "user = Some u" by (cases user) (auto simp: not_user_def)
  show ?thesis
    using False u redis_json_arrpop_step [of s "getMemoryKey u" i]
    by (cases "redis_json_arrpop (getMemoryKey u) i s")
      (auto simp: forget_as_def Let_def split: sum.splits option.splits)
qed

lemma recall_as_docs: "docs (snd (recall_as href user s)) = docs s"
proof (cases "not_user user")
  case True
  then show ?thesis by (simp add: recall_as_def)
next
  case False
  then obtain u where u: "user = Some u" by (cases user) (auto simp: not_user_def)
  show ?thesis
    using False u redis_json_get_docs [of "getMemoryKey u" s]
    by (cases "redis_json_get (getMemoryKey u) s")
      (auto simp: recall_as_def Let_def split: sum.splits)
qed

lemma doc_step_keeps_lists:
  assumes "doc_step d d'"
    and "\<forall>k v. d k = Some v \<longrightarrow> (\<exists>items. v = JArr (map JStr items))"
  shows "\<forall>k v. d' k = Some v \<longrightarrow> (\<exists>items. v = JArr (map JStr items))"
  using assms
proof (induction rule: doc_step.induct)
  case (same d)
  then show ?case by simp
next
  case (created d k r)
  have "JArr [JStr r] = JArr (map JStr [r])" by simp
  with created show ?case by (metis fun_upd_apply option.inject)
next
  case (appended d k xs r)
  then obtain items where "xs = map JStr items" by blast
  then have "JArr (xs @ [JStr r]) = JArr (map JStr (items @ [r]))" by simp
  with appended show ?case by (metis fun_upd_apply option.inject)
next
  case (removed d k xs p)
  then obtain items where "xs = map JStr items" by blast
  then have "JArr (remove_at p xs) = JArr (map JStr (remove_at p items))"
    by (simp add: remove_at_map)
  with removed show ?case by (metis fun_upd_apply option.inject)
qed

lemma doc_step_keeps_keys: "doc_step d d' \<Longrightarrow> d k \<noteq> None \<Longrightarrow> d' k \<noteq> None"
  by (induction rule: doc_step.induct) auto

lemma reachable_lists:
  "reachable s \<Longrightarrow> \<forall>k v. docs s k = Some v \<longrightarrow> (\<exists>items. v = JArr (map JStr items))"
proof (induction rule: reachable.induct)
  case (fresh s)
  then show ?case by simp
next
  case (trouble s fs)
  then show ?case by simp
next
  case (remember s user r t)
  then show ?case using doc_step_keeps_lists [OF remember_as_step] by blast
next
  case (check s u)
  then show ?case by (simp add: redis_exists_docs)
next
  case (resume s u r t res)
  then show ?case using doc_step_keeps_lists [OF remember_resume_step] by blast
next
  case (forget s user i)
  then show ?case using doc_step_keeps_lists [OF forget_as_step] by blast
next
  case (recall s href user)
  then show ?case by (simp add: recall_as_docs)
qed

text \<open>
  C8. In every state the handlers can reach from a store without documents, under any
  interleaving of their steps and any transport failures, a document that exists is a
  JSON array (of strings). No step of a handler takes a key that has a document to a
  state where it has none. For a signed-in caller and no transport failure,
  \<open>memory.remember\<close> takes an absent key to the one-element list of the record and a
  present list to the list with the record at the tail, and \<open>memory.forget\<close> of the only
  element leaves the key present with the empty array.
\<close>

theorem memory_list_states:
  "(reachable s \<longrightarrow> (\<forall>k v. docs s k = Some v \<longrightarrow> (\<exists>items. v = JArr (map JStr items))))
   \<and> (docs s k \<noteq> None \<longrightarrow>
         docs (snd (remember_as user record timestamp s)) k \<noteq> None
         \<and> docs (snd (remember_resume key record timestamp r s)) k \<noteq> None
         \<and> docs (snd (forget_as user index s)) k \<noteq> None
         \<and> docs (snd (recall_as href user s)) k \<noteq> None)
   \<and> (getUser rq = Some u \<and> u \<noteq> [] \<and> no_faults s \<longrightarrow>
         (docs s (getMemoryKey u) = None \<longrightarrow>
            docs (snd (remember rq record timestamp s)) (getMemoryKey u) =
              Some (JArr [JStr record]))
         \<and> (docs s (getMemoryKey u) = Some (JArr xs) \<longrightarrow>
            docs (snd (remember rq record timestamp s)) (getMemoryKey u) =
              Some (JArr (xs @ [JStr record])))
         \<and> (docs s (getMemoryKey u) = Some (JArr [x]) \<longrightarrow>
            docs (snd (forget rq 0 s)) (getMemoryKey u) = Some (JArr [])))"
proof -
  have inv: "\<forall>k v. docs s k = Some v \<longrightarrow> (\<exists>items. v = JArr (map JStr items))"
    if "reachable s"
    using that by (rule reachable_lists)
  have keys: "docs (snd (remember_as user record timestamp s)) k \<noteq> None
         \<and> docs (snd (remember_resume key record timestamp r s)) k \<noteq> None
         \<and> docs (snd (forget_as user index s)) k \<noteq> None
         \<and> docs (snd (recall_as href user s)) k \<noteq> None"
    if "docs s k \<noteq> None"
    using that doc_step_keeps_keys [OF remember_as_step, of s k user]
      doc_step_keeps_keys [OF remember_resume_step, of s k key]
      doc_step_keeps_keys [OF forget_as_step, of s k user index]
    by (simp add: recall_as_docs)
  have moves: "(docs s (getMemoryKey u) = None \<longrightarrow>
            docs (snd (remember rq record timestamp s)) (getMemoryKey u) =
              Some (JArr [JStr record]))
         \<and> (docs s (getMemoryKey u) = Some (JArr xs) \<longrightarrow>
            docs (snd (remember rq record timestamp s)) (getMemoryKey u) =
              Some (JArr (xs @ [JStr record])))
         \<and> (docs s (getMemoryKey u) = Some (JArr [x]) \<longrightarrow>
            docs (snd (forget rq 0 s)) (getMemoryKey u) = Some (JArr []))"
    if h: "getUser rq = Some u" "u \<noteq> []" "no_faults s"
  proof (intro conjI impI)
    assume "docs s (getMemoryKey u) = None"
    from remember_absent [OF h this]
    show "docs (snd (remember rq record timestamp s)) (getMemoryKey u) =
            Some (JArr [JStr record])"
      by simp
  next
    assume "docs s (getMemoryKey u) = Some (JArr xs)"
    from remember_present [OF h this]
    show "docs (snd (remember rq record timestamp s)) (getMemoryKey u) =
            Some (JArr (xs @ [JStr record]))"
      by simp
  next
    assume d: "docs s (getMemoryKey u) = Some (JArr [x])"
    have "arrpop_position (negidx s) 0 (length [x]) = Some 0"
      by (simp add: arrpop_position_def)
    from forget_hit [OF h d this]
    show "docs (snd (forget rq 0 s)) (getMemoryKey u) = Some (JArr [])"
      by (simp add: remove_at_def)
  qed
  show ?thesis using inv keys moves by blast
qed

theorem memory_list_states_witness:
  "reachable one_item_store
   \<and> docs one_item_store (getMemoryKey ''ann'') = Some (JArr (map JStr [''likes tea'']))
   \<and> docs one_item_store (getMemoryKey ''ann'') \<noteq> None
   \<and> getUser ann = Some ''ann'' \<and> ''ann'' \<noteq> [] \<and> no_faults one_item_store
   \<and> no_faults fresh_store \<and> docs fresh_store (getMemoryKey ''ann'') = None
   \<and> docs (snd (forget_as (Some ''ann'') 0 one_item_store)) (getMemoryKey ''ann'') \<noteq> None
   \<and> docs (snd (forget ann 0 one_item_store)) (getMemoryKey ''ann'') = Some (JArr [])
   \<and> docs (snd (remember ann ''has a cat'' ''t2'' one_item_store)) (getMemoryKey ''ann'') =
        Some (JArr [JStr ''likes tea'', JStr ''has a cat''])
   \<and> docs (snd (remember ann ''likes tea'' ''t1'' fresh_store)) (getMemoryKey ''ann'') =
        Some (JArr [JStr ''likes tea''])"
proof -
  have h: "''ann'' \<noteq> []" "docs fresh_store (getMemoryKey ''ann'') = None"
    by (simp_all add: fresh_store_def)
  note a = remember_absent [OF ann_user h(1) fresh_store_no_faults h(2), of "''likes tea''" "''t1''"]
  have d: "docs one_item_store (getMemoryKey ''ann'') = Some (JArr [JStr ''likes tea''])"
    and n: "no_faults one_item_store"
    using fresh_store_no_faults by (simp_all add: one_item_store_def a)
  have "reachable fresh_store"
    by (rule reachable.fresh) (simp add: fresh_store_def)
  then have re: "reachable one_item_store"
    unfolding one_item_store_def remember_def by (rule reachable.remember)
  show ?thesis
    using memory_list_states [of one_item_store "getMemoryKey ''ann''" "Some ''ann''"
        "''has a cat''" "''t2''" _ _ 0 _ ann "''ann''" "[JStr ''likes tea'']" "JStr ''likes tea''"]
      memory_list_states [of fresh_store _ _ "''likes tea''" "''t1''" _ _ _ _ ann "''ann''"]
      re d n ann_user h fresh_store_no_faults
    by simp
qed

section \<open>Negative indices\<close>

text \<open>
  The handler passes the index to the array-pop primitive as it is, with no check of its
  sign: the call logged carries the index given. What a negative index selects is the
  store's. On a store that counts a negative index from the end of the list, a signed-in
  caller whose list has \<open>n \<ge> 1\<close> text items and who calls \<open>memory.forget\<close> with
  \<open>- n \<le> i < 0\<close> (the call not hit by a transport failure) gets the success text carrying
  the item at position \<open>n + i\<close>, and that item is removed; with \<open>i = - 1\<close> it is the last
  item. On a store for which every negative index is out of range the answer is "No memory
  item found".
\<close>

lemma forget_passes_index:
  assumes "getUser rq = Some u" and "u \<noteq> []"
  shows "calls (snd (forget rq i s)) = calls s @ [JsonArrPop (getMemoryKey u) i]"
  using assms transport_calls [of "JsonArrPop (getMemoryKey u) i" s]
  by (cases "transport (JsonArrPop (getMemoryKey u) i) s")
    (auto simp: forget_def forget_as_def not_user_def Let_def redis_json_arrpop_def
      split: option.splits json.splits)

lemma forget_index_from_end:
  assumes "getUser rq = Some u" and "u \<noteq> []" and "no_faults s"
    and "negidx s = from_end"
    and "docs s (getMemoryKey u) = Some (JArr (map JStr items))"
    and "i < 0" and "- int (length items) \<le> i"
  shows "fst (forget rq i s) =
           ToolResult [TextContent ''text''
             (''Removed memory item at index '' @ show_int i @ '' about: ''
              @ items ! nat (int (length items) + i))]
         \<and> docs (snd (forget rq i s)) (getMemoryKey u) =
             Some (JArr (map JStr (remove_at (nat (int (length items) + i)) items)))
         \<and> (i = - 1 \<longrightarrow>
               items ! nat (int (length items) + i) = last items
               \<and> remove_at (nat (int (length items) + i)) items = butlast items)"
proof -
  let ?p = "nat (int (length items) + i)"
  have p: "?p < length items" using assms(6,7) by linarith
  have pos: "arrpop_position (negidx s) i (length (map JStr items)) = Some ?p"
    using assms(4,6,7) p by (simp add: arrpop_position_def from_end_def)
  note f = forget_hit [OF assms(1,2,3,5) pos]
  have t: "fst (forget rq i s) =
             ToolResult [TextContent ''text''
               (''Removed memory item at index '' @ show_int i @ '' about: '' @ items ! ?p)]"
    using p by (simp add: f text_result_def)
  have d: "docs (snd (forget rq i s)) (getMemoryKey u) =
             Some (JArr (map JStr (remove_at ?p items)))"
    by (simp add: f remove_at_map)
  have l: "items ! ?p = last items \<and> remove_at ?p items = butlast items" if "i = - 1"
  proof -
    have ne: "items \<noteq> []" using p by auto
    have q: "?p = length items - 1" using that ne by simp
    show ?thesis
      using ne by (simp add: q last_conv_nth remove_at_def butlast_conv_take)
  qed
  show ?thesis using t d l by blast
qed

lemma forget_last_by_minus_one:
  "fst (forget ann (- 1) (tea_store\<lparr>negidx := from_end\<rparr>)) =
     ToolResult [TextContent ''text'' ''Removed memory item at index -1 about: works at Acme'']"
  "docs (snd (forget ann (- 1) (tea_store\<lparr>negidx := from_end\<rparr>))) (getMemoryKey ''ann'') =
     Some (JArr [JStr ''likes tea''])"
  "fst (forget ann (- 1) tea_store) =
     ToolResult [TextContent ''text'' ''No memory item found at index -1.'']"
proof -
  let ?s = "tea_store\<lparr>negidx := from_end\<rparr>"
  have h: "''ann'' \<noteq> []" "no_faults ?s" "negidx ?s = from_end"
    "docs ?s (getMemoryKey ''ann'') = Some (JArr (map JStr [''likes tea'', ''works at Acme'']))"
    "(- 1 :: int) < 0" "- int (length [''likes tea'', ''works at Acme'']) \<le> - 1"
    using tea_store_no_faults tea_store_docs by (simp_all add: no_faults_def)
  note e = forget_index_from_end [OF ann_user h]
  show "fst (forget ann (- 1) ?s) =
     ToolResult [TextContent ''text'' ''Removed memory item at index -1 about: works at Acme'']"
    using e by (simp add: show_int_examples)
  show "docs (snd (forget ann (- 1) ?s)) (getMemoryKey ''ann'') = Some (JArr [JStr ''likes tea''])"
    using e by (simp add: remove_at_def)
  have m: "docs tea_store (getMemoryKey ''ann'') = None \<or>
         (\<exists>xs. docs tea_store (getMemoryKey ''ann'') = Some (JArr xs) \<and>
               arrpop_position (negidx tea_store) (- 1) (length xs) = None)"
    using tea_store_docs by (simp add: arrpop_position_def tea_store_def strict_index_def)
  show "fst (forget ann (- 1) tea_store) =
     ToolResult [TextContent ''text'' ''No memory item found at index -1.'']"
    using forget_miss [OF ann_user h(1) tea_store_no_faults m]
    by (simp add: show_int_examples text_result_def)
qed

end
